theory Spec2Isabelle
  imports Main
begin

section \<open>JavaScript values\<close>

text \<open>
  The values that travel through \<^verbatim>\<open>res/trilium_handler.js\<close>: request arguments, members of
  host objects and invocation results.  A value is a finite tree.  \<open>Num\<close> carries a number
  with an integral value (fractions, NaN and the infinities are outside the model);
  \<open>Obj\<close> lists the own enumerable string-keyed properties of an object in enumeration
  order; \<open>Function f\<close> is a function object, identified by \<open>f\<close>.  Objects with a
  \<^verbatim>\<open>toJSON\<close> method and cyclic object graphs are outside the model.
\<close>

datatype jsval =
    Undefined
  | Null
  | Bool bool
  | Num int
  | Str string
  | Arr "jsval list"
  | Obj "(string \<times> jsval) list"
  | Function nat

text \<open>String concatenation \<^verbatim>\<open>'...' + x\<close> and property keys \<^verbatim>\<open>obj[x]\<close> convert \<open>x\<close> to a
  string; on a string or \<^verbatim>\<open>undefined\<close> that is the string itself or \<^verbatim>\<open>"undefined"\<close>.\<close>

fun ToString :: "string option \<Rightarrow> string" where
  "ToString None = ''undefined''"
| "ToString (Some s) = s"

section \<open>\<^verbatim>\<open>JSON.stringify\<close>\<close>

definition digit_char :: "nat \<Rightarrow> char" where
  "digit_char d = char_of (48 + d)"

fun show_nat :: "nat \<Rightarrow> string" where
  "show_nat n = (if n < 10 then [digit_char n] else show_nat (n div 10) @ [digit_char (n mod 10)])"

declare show_nat.simps [simp del]

definition show_int :: "int \<Rightarrow> string" where
  "show_int i = (if i < 0 then CHR ''-'' # show_nat (nat (- i)) else show_nat (nat i))"

definition hex_char :: "nat \<Rightarrow> char" where
  "hex_char d = (if d < 10 then char_of (48 + d) else char_of (87 + d))"

definition backslash :: char where
  "backslash = CHR 0x5C"

definition dquote :: char where
  "dquote = CHR 0x22"

text \<open>QuoteJSONString of ECMA-262: the two-character escapes, \<^verbatim>\<open>\u00xx\<close> for the other
  control characters, every other character as it is.\<close>

definition quote_char :: "char \<Rightarrow> string" where
  "quote_char c =
     (if c = CHR 0x08 then [backslash, CHR ''b'']
      else if c = CHR 0x09 then [backslash, CHR ''t'']
      else if c = CHR 0x0A then [backslash, CHR ''n'']
      else if c = CHR 0x0C then [backslash, CHR ''f'']
      else if c = CHR 0x0D then [backslash, CHR ''r'']
      else if c = dquote then [backslash, dquote]
      else if c = backslash then [backslash, backslash]
      else if (of_char c :: nat) < 32
        then [backslash, CHR ''u'', CHR ''0'', CHR ''0'',
              hex_char (of_char c div 16), hex_char (of_char c mod 16)]
      else [c])"

definition QuoteJSONString :: "string \<Rightarrow> string" where
  "QuoteJSONString s = dquote # concat (map quote_char s) @ [dquote]"

fun join_comma :: "string list \<Rightarrow> string" where
  "join_comma [] = []"
| "join_comma [x] = x"
| "join_comma (x # y # ys) = x @ '','' @ join_comma (y # ys)"

text \<open>
  The handler's own function:
  \<^verbatim>\<open>
  function replacer(key, value) {
    if (key === 'children' || key === 'parents') { return undefined; }
    return value;
  }
  \<close>
\<close>

definition replacer :: "string \<Rightarrow> jsval \<Rightarrow> jsval" where
  "replacer key val = (if key = ''children'' \<or> key = ''parents'' then Undefined else val)"

text \<open>The handler calls \<^verbatim>\<open>JSON.stringify\<close> in two ways: \<^verbatim>\<open>JSON.stringify(args)\<close> and
  \<^verbatim>\<open>JSON.stringify(ret, replacer)\<close>.\<close>

datatype replacer_arg = No_replacer | Replacer

fun call_replacer :: "replacer_arg \<Rightarrow> string \<Rightarrow> jsval \<Rightarrow> jsval" where
  "call_replacer No_replacer key val = val"
| "call_replacer Replacer key val = replacer key val"

lemma size_call_replacer: "size (call_replacer r k v) \<le> size v"
  by (cases r) (simp_all add: replacer_def)

text \<open>
  SerializeJSONProperty, SerializeJSONArray and SerializeJSONObject of ECMA-262, without
  indentation.  The replacer sees every property, array elements under their index as a
  string; a property whose value serializes to \<^verbatim>\<open>undefined\<close> is left out of an object and
  is \<^verbatim>\<open>null\<close> in an array.  \<open>None\<close> is \<^verbatim>\<open>undefined\<close>.
\<close>

function SerializeJSONProperty :: "replacer_arg \<Rightarrow> string \<Rightarrow> jsval \<Rightarrow> string option"
  and SerializeJSONValue :: "replacer_arg \<Rightarrow> jsval \<Rightarrow> string option"
  and SerializeJSONArray :: "replacer_arg \<Rightarrow> nat \<Rightarrow> jsval list \<Rightarrow> string list"
  and SerializeJSONObject :: "replacer_arg \<Rightarrow> (string \<times> jsval) list \<Rightarrow> string list"
where
  "SerializeJSONProperty r key val = SerializeJSONValue r (call_replacer r key val)"
| "SerializeJSONValue r Null = Some ''null''"
| "SerializeJSONValue r (Bool b) = Some (if b then ''true'' else ''false'')"
| "SerializeJSONValue r (Str s) = Some (QuoteJSONString s)"
| "SerializeJSONValue r (Num n) = Some (show_int n)"
| "SerializeJSONValue r (Arr xs) = Some (''['' @ join_comma (SerializeJSONArray r 0 xs) @ '']'')"
| "SerializeJSONValue r (Obj kvs) = Some (''{'' @ join_comma (SerializeJSONObject r kvs) @ ''}'')"
| "SerializeJSONValue r Undefined = None"
| "SerializeJSONValue r (Function f) = None"
| "SerializeJSONArray r i [] = []"
| "SerializeJSONArray r i (x # xs) =
     (case SerializeJSONProperty r (show_nat i) x of None \<Rightarrow> ''null'' | Some s \<Rightarrow> s)
       # SerializeJSONArray r (Suc i) xs"
| "SerializeJSONObject r [] = []"
| "SerializeJSONObject r ((k, v) # kvs) =
     (case SerializeJSONProperty r k v of
        None \<Rightarrow> SerializeJSONObject r kvs
      | Some s \<Rightarrow> (QuoteJSONString k @ '':'' @ s) # SerializeJSONObject r kvs)"
  by pat_completeness auto

termination
  apply (relation "measure (\<lambda>x. case x of
      Inl (Inl (r, k, v)) \<Rightarrow> 2 * size v + 1
    | Inl (Inr (r, v)) \<Rightarrow> 2 * size v
    | Inr (Inl (r, i, xs)) \<Rightarrow> 2 * size_list size xs + 1
    | Inr (Inr (r, kvs)) \<Rightarrow> 2 * size_list (size_prod (\<lambda>_. 0) size) kvs + 1)")
         apply simp_all
  subgoal for r key val using size_call_replacer [of r key val] by simp
  done

text \<open>\<^verbatim>\<open>JSON.stringify(value, replacer)\<close> serializes the property \<^verbatim>\<open>""\<close> of a wrapper
  object holding the value.\<close>

definition JSON_stringify :: "jsval \<Rightarrow> replacer_arg \<Rightarrow> string option" where
  "JSON_stringify v r = SerializeJSONProperty r [] v"

section \<open>The host and the request\<close>

text \<open>A failure that is thrown: a TypeError of the language for a property read on
  \<^verbatim>\<open>null\<close> (with the property's name), or whatever else is thrown, given by its string
  form \<^verbatim>\<open>String(e)\<close>.  The string form of the TypeError is the one of V8, the engine of
  the host, with the property's name in single quotes.  A read on \<^verbatim>\<open>undefined\<close> throws
  the same TypeError with \<^verbatim>\<open>undefined\<close> in its message; the model writes \<^verbatim>\<open>null\<close> for
  both.\<close>

datatype failure = TypeError_read_of_null string | Thrown string

definition squote :: char where
  "squote = CHR 0x27"

fun js_String :: "failure \<Rightarrow> string" where
  "js_String (TypeError_read_of_null p) =
     ''TypeError: Cannot read properties of null (reading '' @ [squote] @ p @ [squote] @ '')''"
| "js_String (Thrown s) = s"

record label =
  label_value :: "string option"

text \<open>
  The script API \<^verbatim>\<open>api\<close> of the host, as far as the handler uses it.  \<open>'h\<close> is the type of
  host objects; a lookup that gives \<^verbatim>\<open>null\<close> or \<^verbatim>\<open>undefined\<close> is \<open>None\<close>.
  \<open>get_member o name\<close> is the property read \<^verbatim>\<open>o[name]\<close> (a getter may throw) and
  \<open>apply_function f o as\<close> is \<^verbatim>\<open>Reflect.apply(f, o, as)\<close> for the function object \<open>f\<close>.
  The host answers a repeated read of the same member alike.
\<close>

record 'h host =
  currentNote_getLabel :: "string \<Rightarrow> label option"
  getNote :: "string option \<Rightarrow> 'h option"
  getBranch :: "string option \<Rightarrow> 'h option"
  getAttribute :: "string option \<Rightarrow> 'h option"
  sql :: "'h option"
  api :: 'h
  get_member :: "'h \<Rightarrow> string \<Rightarrow> failure + jsval"
  apply_function :: "nat \<Rightarrow> 'h \<Rightarrow> jsval list \<Rightarrow> failure + jsval"

text \<open>\<^verbatim>\<open>req.body\<close>, with the fields typed as the specification's data model types them:
  a string or absent, and a sequence of values for \<^verbatim>\<open>args\<close>.\<close>

record request =
  pythonClientToken :: "string option"
  objtype :: "string option"
  objid :: "string option"
  methodName :: "string option"
  args :: "jsval list"

text \<open>What the handler hands to \<^verbatim>\<open>res\<close>: \<^verbatim>\<open>res.send(n)\<close> with a number is the status
  \<open>n\<close> and no body of the handler's; \<^verbatim>\<open>res.status(n).send(s)\<close> is the status \<open>n\<close> with
  body \<open>s\<close>, where \<^verbatim>\<open>undefined\<close> (\<open>None\<close>) is no body.\<close>

record response =
  status :: nat
  body :: "string option"

text \<open>The effects of a run on the host, in order.\<close>

datatype 'h event =
    Log string
  | Log_failure failure
  | Call_getNote "string option"
  | Call_getBranch "string option"
  | Call_getAttribute "string option"
  | Read_sql
  | Apply nat 'h "jsval list"
  | Respond response

datatype completion = Returned | Uncaught failure

section \<open>The handler\<close>

text \<open>
  \<^verbatim>\<open>
  if (pythonClientToken !== api.currentNote.getLabel("pythonClientToken").value) {
      res.send(401); return; }
  \<close>
  \<open>Inr True\<close>: the tokens are strictly equal.  Reading \<^verbatim>\<open>.value\<close> of a label that does
  not exist throws.
\<close>

definition AuthGate :: "'h host \<Rightarrow> request \<Rightarrow> failure + bool" where
  "AuthGate h rq =
     (case currentNote_getLabel h ''pythonClientToken'' of
        None \<Rightarrow> Inl (TypeError_read_of_null ''value'')
      | Some l \<Rightarrow> Inr (\<not> (pythonClientToken rq \<noteq> label_value l)))"

definition executing_message :: "request \<Rightarrow> string" where
  "executing_message rq =
     ''Executing '' @ ToString (objtype rq) @ ''('' @ ToString (objid rq) @ '').''
       @ ToString (methodName rq) @ ''(''
       @ ToString (JSON_stringify (Arr (args rq)) No_replacer) @ '')''"

text \<open>
  \<^verbatim>\<open>
  var obj = api;
  if ('note' == objtype) { obj = api.getNote(objid); }
  else if ('branch' == objtype) { obj = api.getBranch(objid); }
  else if ('attribute' == objtype) { obj = api.getAttribute(objid); }
  else if ('sql' == objtype) { obj = api.sql; }
  \<close>
\<close>

definition resolve :: "'h host \<Rightarrow> string option \<Rightarrow> string option \<Rightarrow> 'h event list \<times> 'h option" where
  "resolve h ty oid =
     (if Some ''note'' = ty then ([Call_getNote oid], getNote h oid)
      else if Some ''branch'' = ty then ([Call_getBranch oid], getBranch h oid)
      else if Some ''attribute'' = ty then ([Call_getAttribute oid], getAttribute h oid)
      else if Some ''sql'' = ty then ([Read_sql], sql h)
      else ([], Some (api h)))"

text \<open>
  The body of the \<^verbatim>\<open>try\<close> block, \<open>ret\<close> being the member read before it:
  \<^verbatim>\<open>
  if ('function' == typeof obj[methodName]) {
      ret = Reflect.apply(obj[methodName], obj, args); }
  \<close>
  The block reads the member again; \<^verbatim>\<open>typeof\<close> is \<^verbatim>\<open>'function'\<close> on a function object
  and on nothing else.
\<close>

definition try_block :: "'h host \<Rightarrow> 'h \<Rightarrow> string \<Rightarrow> jsval list \<Rightarrow> jsval \<Rightarrow> 'h event list \<times> (failure + jsval)" where
  "try_block h ob name as ret =
     (case get_member h ob name of
        Inl e \<Rightarrow> ([], Inl e)
      | Inr (Function f) \<Rightarrow> ([Apply f ob as], apply_function h f ob as)
      | Inr _ \<Rightarrow> ([], Inr ret))"

text \<open>
  \<^verbatim>\<open>
  api.log('Return value ' + JSON.stringify(ret, replacer));
  if (ret !== null) { res.status(201).send(JSON.stringify(ret, replacer)); }
  else { res.send(400); }
  \<close>
\<close>

definition return_message :: "jsval \<Rightarrow> string" where
  "return_message ret = ''Return value '' @ ToString (JSON_stringify ret Replacer)"

definition respond :: "jsval \<Rightarrow> 'h event list" where
  "respond ret =
     [Log (return_message ret),
      Respond (if ret \<noteq> Null then \<lparr>status = 201, body = JSON_stringify ret Replacer\<rparr>
               else \<lparr>status = 400, body = None\<rparr>)]"

text \<open>
  The handler after the token check.  \<^verbatim>\<open>var ret = obj[methodName];\<close> stands before the
  \<^verbatim>\<open>try\<close>: what it throws is not caught.
  \<^verbatim>\<open>
  catch (e) { api.log(e); res.status(500).send(String(e)); return; }
  \<close>
\<close>

definition dispatch :: "'h host \<Rightarrow> request \<Rightarrow> 'h event list \<times> completion" where
  "dispatch h rq =
     (let executing = Log (executing_message rq);
          (resolution, obj) = resolve h (objtype rq) (objid rq);
          name = ToString (methodName rq)
      in case obj of
           None \<Rightarrow> (executing # resolution, Uncaught (TypeError_read_of_null name))
         | Some ob \<Rightarrow>
             (case get_member h ob name of
                Inl e \<Rightarrow> (executing # resolution, Uncaught e)
              | Inr ret0 \<Rightarrow>
                  (case try_block h ob name (args rq) ret0 of
                     (invocation, Inl e) \<Rightarrow>
                       (executing # resolution @ invocation
                          @ [Log_failure e, Respond \<lparr>status = 500, body = Some (js_String e)\<rparr>],
                        Returned)
                   | (invocation, Inr ret) \<Rightarrow>
                       (executing # resolution @ invocation @ respond ret, Returned))))"

definition handler :: "'h host \<Rightarrow> request \<Rightarrow> 'h event list \<times> completion" where
  "handler h rq =
     (case AuthGate h rq of
        Inl e \<Rightarrow> ([], Uncaught e)
      | Inr False \<Rightarrow> ([Respond \<lparr>status = 401, body = None\<rparr>], Returned)
      | Inr True \<Rightarrow> dispatch h rq)"

section \<open>The specification's notions\<close>

text \<open>The specification's reading of the serializer: the value with every property
  named \<^verbatim>\<open>children\<close> or \<^verbatim>\<open>parents\<close> left out, at every depth, and everything else
  kept.\<close>

fun omit_filtered :: "jsval \<Rightarrow> jsval"
  and omit_filtered_elements :: "jsval list \<Rightarrow> jsval list"
  and omit_filtered_members :: "(string \<times> jsval) list \<Rightarrow> (string \<times> jsval) list"
where
  "omit_filtered (Arr xs) = Arr (omit_filtered_elements xs)"
| "omit_filtered (Obj kvs) = Obj (omit_filtered_members kvs)"
| "omit_filtered Undefined = Undefined"
| "omit_filtered Null = Null"
| "omit_filtered (Bool b) = Bool b"
| "omit_filtered (Num n) = Num n"
| "omit_filtered (Str s) = Str s"
| "omit_filtered (Function f) = Function f"
| "omit_filtered_elements [] = []"
| "omit_filtered_elements (x # xs) = omit_filtered x # omit_filtered_elements xs"
| "omit_filtered_members [] = []"
| "omit_filtered_members ((k, v) # kvs) =
     (if k = ''children'' \<or> k = ''parents'' then omit_filtered_members kvs
      else (k, omit_filtered v) # omit_filtered_members kvs)"

text \<open>Some object inside the value, at any depth, has a property named \<^verbatim>\<open>children\<close> or
  \<^verbatim>\<open>parents\<close>.\<close>

fun has_filtered_key :: "jsval \<Rightarrow> bool"
  and has_filtered_key_elements :: "jsval list \<Rightarrow> bool"
  and has_filtered_key_members :: "(string \<times> jsval) list \<Rightarrow> bool"
where
  "has_filtered_key (Arr xs) = has_filtered_key_elements xs"
| "has_filtered_key (Obj kvs) = has_filtered_key_members kvs"
| "has_filtered_key Undefined = False"
| "has_filtered_key Null = False"
| "has_filtered_key (Bool b) = False"
| "has_filtered_key (Num n) = False"
| "has_filtered_key (Str s) = False"
| "has_filtered_key (Function f) = False"
| "has_filtered_key_elements [] = False"
| "has_filtered_key_elements (x # xs) = (has_filtered_key x \<or> has_filtered_key_elements xs)"
| "has_filtered_key_members [] = False"
| "has_filtered_key_members ((k, v) # kvs) =
     (k = ''children'' \<or> k = ''parents'' \<or> has_filtered_key v \<or> has_filtered_key_members kvs)"


text \<open>A JSON-safe value: \<^verbatim>\<open>null\<close>, booleans, safe integers, strings, arrays and objects
  of such, an object having each property name once.\<close>

fun json_safe :: "jsval \<Rightarrow> bool"
  and json_safe_elements :: "jsval list \<Rightarrow> bool"
  and json_safe_members :: "(string \<times> jsval) list \<Rightarrow> bool"
where
  "json_safe (Arr xs) = json_safe_elements xs"
| "json_safe (Obj kvs) = (distinct (map fst kvs) \<and> json_safe_members kvs)"
| "json_safe Undefined = False"
| "json_safe Null = True"
| "json_safe (Bool b) = True"
| "json_safe (Num n) = (- (2 ^ 53) < n \<and> n < 2 ^ 53)"
| "json_safe (Str s) = True"
| "json_safe (Function f) = False"
| "json_safe_elements [] = True"
| "json_safe_elements (x # xs) = (json_safe x \<and> json_safe_elements xs)"
| "json_safe_members [] = True"
| "json_safe_members ((k, v) # kvs) = (json_safe v \<and> json_safe_members kvs)"

section \<open>Decoding JSON text\<close>

text \<open>
  The decoder of the client, which is not part of the handler: a reader of JSON text
  (ECMA-404) into the values above, for the texts that \<^verbatim>\<open>JSON.stringify\<close> without
  indentation writes.  It takes no white space between tokens and, numbers being
  integral here, no fraction and no exponent; a \<^verbatim>\<open>\uXXXX\<close> escape has to name one of the
  256 characters of the model.
\<close>

definition is_digit :: "char \<Rightarrow> bool" where
  "is_digit c = (48 \<le> (of_char c :: nat) \<and> (of_char c :: nat) \<le> 57)"

definition digit_val :: "char \<Rightarrow> nat" where
  "digit_val c = of_char c - 48"

definition parse_nat :: "string \<Rightarrow> (nat \<times> string) option" where
  "parse_nat s =
     (let ds = takeWhile is_digit s
      in if ds = [] \<or> (1 < length ds \<and> hd ds = CHR ''0'') then None
         else Some (foldl (\<lambda>a d. 10 * a + digit_val d) 0 ds, dropWhile is_digit s))"

definition hex_val :: "char \<Rightarrow> nat option" where
  "hex_val c =
     (let n = (of_char c :: nat)
      in if 48 \<le> n \<and> n \<le> 57 then Some (n - 48)
         else if 97 \<le> n \<and> n \<le> 102 then Some (n - 87)
         else if 65 \<le> n \<and> n \<le> 70 then Some (n - 55)
         else None)"

definition unescape :: "char \<Rightarrow> char option" where
  "unescape e =
     (if e = CHR ''b'' then Some (CHR 0x08)
      else if e = CHR ''t'' then Some (CHR 0x09)
      else if e = CHR ''n'' then Some (CHR 0x0A)
      else if e = CHR ''f'' then Some (CHR 0x0C)
      else if e = CHR ''r'' then Some (CHR 0x0D)
      else if e = dquote then Some dquote
      else if e = backslash then Some backslash
      else if e = CHR ''/'' then Some (CHR ''/'')
      else None)"

definition unicode_escape :: "char \<Rightarrow> char \<Rightarrow> char \<Rightarrow> char \<Rightarrow> char option" where
  "unicode_escape a b c d =
     (case (hex_val a, hex_val b, hex_val c, hex_val d) of
        (Some x, Some y, Some z, Some w) \<Rightarrow>
          (if x = 0 \<and> y = 0 then Some (char_of (16 * z + w)) else None)
      | _ \<Rightarrow> None)"

definition cons_result :: "'a \<Rightarrow> ('a list \<times> string) option \<Rightarrow> ('a list \<times> string) option" where
  "cons_result x r = (case r of None \<Rightarrow> None | Some (xs, rest) \<Rightarrow> Some (x # xs, rest))"

text \<open>The characters of a string after its opening quote, up to the closing one.\<close>

fun parse_chars :: "string \<Rightarrow> (string \<times> string) option"
  and parse_escape :: "string \<Rightarrow> (string \<times> string) option"
where
  "parse_chars [] = None"
| "parse_chars (c # cs) =
     (if c = dquote then Some ([], cs)
      else if c = backslash then parse_escape cs
      else if (of_char c :: nat) < 32 then None
      else cons_result c (parse_chars cs))"
| "parse_escape [] = None"
| "parse_escape (e # cs) =
     (if e = CHR ''u'' then
        (case cs of
           a # b # c # d # cs' \<Rightarrow>
             (case unicode_escape a b c d of
                None \<Rightarrow> None
              | Some ch \<Rightarrow> cons_result ch (parse_chars cs'))
         | _ \<Rightarrow> None)
      else (case unescape e of
              None \<Rightarrow> None
            | Some ch \<Rightarrow> cons_result ch (parse_chars cs)))"

fun starts_with :: "char \<Rightarrow> string \<Rightarrow> bool" where
  "starts_with ch [] = False"
| "starts_with ch (c # cs) = (c = ch)"

definition parse_literal :: "string \<Rightarrow> jsval \<Rightarrow> string \<Rightarrow> (jsval \<times> string) option" where
  "parse_literal w v s =
     (if take (length w) s = w then Some (v, drop (length w) s) else None)"

text \<open>The first argument bounds the number of nested calls; \<open>JSON_parse\<close> gives more
  than a text of its length can need.\<close>

fun parse_value :: "nat \<Rightarrow> string \<Rightarrow> (jsval \<times> string) option"
  and parse_elements :: "nat \<Rightarrow> string \<Rightarrow> (jsval list \<times> string) option"
  and parse_members :: "nat \<Rightarrow> string \<Rightarrow> ((string \<times> jsval) list \<times> string) option"
where
  "parse_value 0 s = None"
| "parse_value (Suc n) [] = None"
| "parse_value (Suc n) (c # cs) =
     (if c = CHR ''n'' then parse_literal ''null'' Null (c # cs)
      else if c = CHR ''t'' then parse_literal ''true'' (Bool True) (c # cs)
      else if c = CHR ''f'' then parse_literal ''false'' (Bool False) (c # cs)
      else if c = dquote then
        (case parse_chars cs of None \<Rightarrow> None | Some (s, rest) \<Rightarrow> Some (Str s, rest))
      else if c = CHR ''['' then
        (if starts_with (CHR '']'') cs then Some (Arr [], tl cs)
         else (case parse_elements n cs of
                 None \<Rightarrow> None
               | Some (xs, rest) \<Rightarrow> Some (Arr xs, rest)))
      else if c = CHR ''{'' then
        (if starts_with (CHR ''}'') cs then Some (Obj [], tl cs)
         else (case parse_members n cs of
                 None \<Rightarrow> None
               | Some (kvs, rest) \<Rightarrow> Some (Obj kvs, rest)))
      else if c = CHR ''-'' then
        (case parse_nat cs of None \<Rightarrow> None | Some (m, rest) \<Rightarrow> Some (Num (- int m), rest))
      else
        (case parse_nat (c # cs) of None \<Rightarrow> None | Some (m, rest) \<Rightarrow> Some (Num (int m), rest)))"
| "parse_elements 0 s = None"
| "parse_elements (Suc n) s =
     (case parse_value n s of
        None \<Rightarrow> None
      | Some (v, rest) \<Rightarrow>
          (if starts_with (CHR '','') rest then cons_result v (parse_elements n (tl rest))
           else if starts_with (CHR '']'') rest then Some ([v], tl rest)
           else None))"
| "parse_members 0 s = None"
| "parse_members (Suc n) s =
     (if starts_with dquote s then
        (case parse_chars (tl s) of
           None \<Rightarrow> None
         | Some (k, rest) \<Rightarrow>
             (if starts_with (CHR '':'') rest then
                (case parse_value n (tl rest) of
                   None \<Rightarrow> None
                 | Some (v, rest') \<Rightarrow>
                     (if starts_with (CHR '','') rest' then
                        cons_result (k, v) (parse_members n (tl rest'))
                      else if starts_with (CHR ''}'') rest' then Some ([(k, v)], tl rest')
                      else None))
              else None))
      else None)"

definition JSON_parse :: "string \<Rightarrow> jsval option" where
  "JSON_parse s =
     (case parse_value (Suc (length s)) s of
        Some (v, []) \<Rightarrow> Some v
      | _ \<Rightarrow> None)"

text \<open>What follows a number in a text must not continue it.\<close>

definition no_digit_ahead :: "string \<Rightarrow> bool" where
  "no_digit_ahead rest = (case rest of [] \<Rightarrow> True | c # cs \<Rightarrow> \<not> is_digit c)"

section \<open>A host to run the handler on\<close>

text \<open>The current note carries the label \<^verbatim>\<open>#pythonClientToken="secret"\<close>; there is one
  note, \<^verbatim>\<open>N1\<close>, and no branch or attribute.\<close>

datatype demo_object = Root_api | Note_N1 | Sql_facade

definition demo_member :: "demo_object \<Rightarrow> string \<Rightarrow> failure + jsval" where
  "demo_member ob name =
     (if ob = Note_N1 \<and> name = ''getTitle'' then Inr (Function 7)
      else if ob = Note_N1 \<and> name = ''fail'' then Inr (Function 8)
      else if ob = Note_N1 \<and> name = ''getPojo'' then Inr (Function 9)
      else if ob = Note_N1 \<and> name = ''save'' then Inr (Function 10)
      else if ob = Note_N1 \<and> name = ''getMeta'' then Inr (Function 11)
      else if ob = Note_N1 \<and> name = ''getOwner'' then Inr (Function 12)
      else if ob = Note_N1 \<and> name = ''title'' then Inr (Str ''Groceries'')
      else if ob = Note_N1 \<and> name = ''blobId'' then Inr Null
      else Inr Undefined)"

definition demo_apply :: "nat \<Rightarrow> demo_object \<Rightarrow> jsval list \<Rightarrow> failure + jsval" where
  "demo_apply f ob as =
     (if f = 7 then Inr (Str ''Groceries'')
      else if f = 8 then Inl (Thrown ''Error: boom'')
      else if f = 9 then
        Inr (Obj [(''title'', Str ''A''), (''children'', Arr [Num 1]), (''parents'', Arr [])])
      else if f = 11 then
        Inr (Obj [(''noteId'', Str ''N1''), (''position'', Num (- 20)),
                  (''flags'', Arr [Bool True, Null])])
      else if f = 12 then Inl (TypeError_read_of_null ''name'')
      else Inr Undefined)"

definition demo_host :: "demo_object host" where
  "demo_host =
     \<lparr>currentNote_getLabel =
        (\<lambda>n. if n = ''pythonClientToken'' then Some \<lparr>label_value = Some ''secret''\<rparr> else None),
      getNote = (\<lambda>i. if i = Some ''N1'' then Some Note_N1 else None),
      getBranch = (\<lambda>i. None),
      getAttribute = (\<lambda>i. None),
      sql = Some Sql_facade,
      api = Root_api,
      get_member = demo_member,
      apply_function = demo_apply\<rparr>"

definition demo_request :: "string \<Rightarrow> string \<Rightarrow> request" where
  "demo_request oid name =
     \<lparr>pythonClientToken = Some ''secret'', objtype = Some ''note'', objid = Some oid,
      methodName = Some name, args = []\<rparr>"

section \<open>Authentication\<close>

lemma AuthGate_label:
  "currentNote_getLabel h ''pythonClientToken'' = Some l \<Longrightarrow>
   AuthGate h rq = Inr (pythonClientToken rq = label_value l)"
  by (simp add: AuthGate_def)

lemma dispatch_starts_with_log:
  "\<exists>evs c. dispatch h rq = (Log (executing_message rq) # evs, c)"
  by (auto simp: dispatch_def Let_def split: prod.splits option.splits sum.splits)

text \<open>
  C3.  When the token of the request differs from the value of the label
  \<^verbatim>\<open>pythonClientToken\<close> of the current note, the handler answers 401 and does nothing
  else: the whole run is that one response, so nothing is resolved, invoked or logged.
\<close>

theorem token_mismatch_401:
  assumes "currentNote_getLabel h ''pythonClientToken'' = Some l"
    and "pythonClientToken rq \<noteq> label_value l"
  shows "handler h rq = ([Respond \<lparr>status = 401, body = None\<rparr>], Returned)"
  using assms by (simp add: handler_def AuthGate_label)

theorem token_mismatch_401_witness:
  "handler demo_host ((demo_request ''N1'' ''getTitle'')\<lparr>pythonClientToken := Some ''wrong''\<rparr>)
     = ([Respond \<lparr>status = 401, body = None\<rparr>], Returned)"
  using token_mismatch_401 [of demo_host "\<lparr>label_value = Some ''secret''\<rparr>"
      "(demo_request ''N1'' ''getTitle'')\<lparr>pythonClientToken := Some ''wrong''\<rparr>"]
  by (simp add: demo_host_def demo_request_def)

text \<open>
  C9.  With the label present, the token check passes exactly when the token of the
  request is equal to the label's value; the handler answers 401 exactly when they
  differ.  A request without a token passes when the label's value is absent too.
\<close>

theorem token_check_is_equality:
  assumes "currentNote_getLabel h ''pythonClientToken'' = Some l"
  shows "AuthGate h rq = Inr (pythonClientToken rq = label_value l)
       \<and> (handler h rq = ([Respond \<lparr>status = 401, body = None\<rparr>], Returned)
            \<longleftrightarrow> pythonClientToken rq \<noteq> label_value l)
       \<and> (pythonClientToken rq = None \<and> label_value l = None \<longrightarrow>
            AuthGate h rq = Inr True \<and> handler h rq = dispatch h rq)"
proof -
  have gate: "AuthGate h rq = Inr (pythonClientToken rq = label_value l)"
    using assms by (rule AuthGate_label)
  obtain evs c where d: "dispatch h rq = (Log (executing_message rq) # evs, c)"
    using dispatch_starts_with_log by blast
  have "handler h rq = dispatch h rq" if "pythonClientToken rq = label_value l"
    using that gate by (simp add: handler_def)
  moreover have "handler h rq = ([Respond \<lparr>status = 401, body = None\<rparr>], Returned)"
    if "pythonClientToken rq \<noteq> label_value l"
    using that gate by (simp add: handler_def)
  ultimately show ?thesis
    using gate d by auto
qed

theorem token_check_is_equality_witness:
  "AuthGate (demo_host\<lparr>currentNote_getLabel := \<lambda>n. Some \<lparr>label_value = None\<rparr>\<rparr>)
     ((demo_request ''N1'' ''getTitle'')\<lparr>pythonClientToken := None\<rparr>) = Inr True
   \<and> handler (demo_host\<lparr>currentNote_getLabel := \<lambda>n. Some \<lparr>label_value = None\<rparr>\<rparr>)
       ((demo_request ''N1'' ''getTitle'')\<lparr>pythonClientToken := None\<rparr>)
     = dispatch (demo_host\<lparr>currentNote_getLabel := \<lambda>n. Some \<lparr>label_value = None\<rparr>\<rparr>)
       ((demo_request ''N1'' ''getTitle'')\<lparr>pythonClientToken := None\<rparr>)"
proof -
  have l: "currentNote_getLabel
      (demo_host\<lparr>currentNote_getLabel := \<lambda>n. Some \<lparr>label_value = None\<rparr>\<rparr>) ''pythonClientToken''
      = Some \<lparr>label_value = None\<rparr>"
    by simp
  have t: "pythonClientToken ((demo_request ''N1'' ''getTitle'')\<lparr>pythonClientToken := None\<rparr>) = None"
    by simp
  show ?thesis
    using token_check_is_equality [OF l,
        of "(demo_request ''N1'' ''getTitle'')\<lparr>pythonClientToken := None\<rparr>"] t
    by simp
qed

section \<open>Object resolution\<close>

text \<open>
  C4.  The resolver maps \<^verbatim>\<open>note\<close> to \<^verbatim>\<open>api.getNote(objid)\<close>, \<^verbatim>\<open>branch\<close> to
  \<^verbatim>\<open>api.getBranch(objid)\<close>, \<^verbatim>\<open>attribute\<close> to \<^verbatim>\<open>api.getAttribute(objid)\<close>, \<^verbatim>\<open>sql\<close> to
  \<^verbatim>\<open>api.sql\<close> whatever the id, and every other kind, an absent one too, to \<^verbatim>\<open>api\<close>
  itself without calling the host.
\<close>

theorem resolve_mapping:
  "resolve h (Some ''note'') oid = ([Call_getNote oid], getNote h oid)
   \<and> resolve h (Some ''branch'') oid = ([Call_getBranch oid], getBranch h oid)
   \<and> resolve h (Some ''attribute'') oid = ([Call_getAttribute oid], getAttribute h oid)
   \<and> resolve h (Some ''sql'') oid = ([Read_sql], sql h)
   \<and> (ty \<notin> {Some ''note'', Some ''branch'', Some ''attribute'', Some ''sql''} \<longrightarrow>
        resolve h ty oid = ([], Some (api h)))"
  by (auto simp: resolve_def)

theorem resolve_mapping_witness:
  "resolve demo_host (Some ''note'') (Some ''N1'') = ([Call_getNote (Some ''N1'')], Some Note_N1)
   \<and> resolve demo_host (Some ''sql'') (Some ''N1'') = ([Read_sql], Some Sql_facade)
   \<and> resolve demo_host None (Some ''N1'') = ([], Some Root_api)"
  using resolve_mapping [of demo_host "Some ''N1''" None]
  by (simp add: demo_host_def)

section \<open>Invocation\<close>

lemma JSON_stringify_root: "JSON_stringify v r = SerializeJSONValue r v"
  by (cases r) (simp_all add: JSON_stringify_def replacer_def)

lemma handler_authenticated: "AuthGate h rq = Inr True \<Longrightarrow> handler h rq = dispatch h rq"
  by (simp add: handler_def)

lemma demo_authenticated: "AuthGate demo_host (demo_request oid name) = Inr True"
  by (simp add: AuthGate_def demo_host_def demo_request_def)

lemma demo_resolve:
  "resolve demo_host (objtype (demo_request oid name)) (objid (demo_request oid name))
     = ([Call_getNote (Some oid)], if oid = ''N1'' then Some Note_N1 else None)"
  by (simp add: resolve_def demo_host_def demo_request_def)

lemma demo_methodName: "ToString (methodName (demo_request oid name)) = name"
  by (simp add: demo_request_def)

lemma demo_args: "args (demo_request oid name) = []"
  by (simp add: demo_request_def)

lemma demo_get_member: "get_member demo_host = demo_member"
  by (simp add: demo_host_def)

lemma demo_apply_function: "apply_function demo_host = demo_apply"
  by (simp add: demo_host_def)

lemma executing_message_demo:
  "executing_message (demo_request oid name) = ''Executing note('' @ oid @ '').'' @ name @ ''([])''"
  by (simp add: executing_message_def demo_request_def JSON_stringify_root)

lemma dispatch_null_handle:
  assumes "resolve h (objtype rq) (objid rq) = (evs, None)"
  shows "dispatch h rq =
    (Log (executing_message rq) # evs, Uncaught (TypeError_read_of_null (ToString (methodName rq))))"
  using assms by (simp add: dispatch_def)

lemma dispatch_failed:
  assumes "resolve h (objtype rq) (objid rq) = (evs, Some ob)"
    and "get_member h ob (ToString (methodName rq)) = Inr ret0"
    and "try_block h ob (ToString (methodName rq)) (args rq) ret0 = (ivs, Inl e)"
  shows "dispatch h rq =
    (Log (executing_message rq) # evs @ ivs
       @ [Log_failure e, Respond \<lparr>status = 500, body = Some (js_String e)\<rparr>], Returned)"
  using assms by (simp add: dispatch_def)

lemma dispatch_result:
  assumes "resolve h (objtype rq) (objid rq) = (evs, Some ob)"
    and "get_member h ob (ToString (methodName rq)) = Inr ret0"
    and "try_block h ob (ToString (methodName rq)) (args rq) ret0 = (ivs, Inr ret)"
  shows "dispatch h rq = (Log (executing_message rq) # evs @ ivs @ respond ret, Returned)"
  using assms by (simp add: dispatch_def)

lemma try_block_callable:
  "get_member h ob name = Inr (Function f) \<Longrightarrow>
   try_block h ob name as ret0 = ([Apply f ob as], apply_function h f ob as)"
  by (simp add: try_block_def)

lemma try_block_not_callable:
  "get_member h ob name = Inr v \<Longrightarrow> \<forall>f. v \<noteq> Function f \<Longrightarrow>
   try_block h ob name as ret0 = ([], Inr ret0)"
  by (cases v) (simp_all add: try_block_def)

text \<open>
  C1.  A request with the right token for a note that does not exist: \<^verbatim>\<open>api.getNote\<close>
  gives \<^verbatim>\<open>null\<close>, the read \<^verbatim>\<open>obj[methodName]\<close> before the \<^verbatim>\<open>try\<close> throws, and the
  run ends with the TypeError uncaught, without a response and without a log entry
  for the failure.
\<close>

theorem null_handle_escapes:
  "handler demo_host (demo_request ''N2'' ''getTitle'') =
     ([Log ''Executing note(N2).getTitle([])'', Call_getNote (Some ''N2'')],
      Uncaught (TypeError_read_of_null ''getTitle''))"
  by (simp add: handler_authenticated demo_authenticated demo_resolve demo_methodName
      dispatch_null_handle [where evs = "[Call_getNote (Some ''N2'')]"] executing_message_demo)

text \<open>
  C2, as the claim states it, fails where the member does not exist: the result is
  \<^verbatim>\<open>undefined\<close>, which is not \<^verbatim>\<open>null\<close>, and the response is 201, not 400.
\<close>

theorem undefined_result_is_201:
  "get_member demo_host Note_N1 ''missing'' = Inr Undefined
   \<and> handler demo_host (demo_request ''N1'' ''missing'') =
     ([Log ''Executing note(N1).missing([])'', Call_getNote (Some ''N1''),
       Log ''Return value undefined'', Respond \<lparr>status = 201, body = None\<rparr>], Returned)
   \<and> Respond \<lparr>status = 400, body = None\<rparr> \<notin> set (fst (handler demo_host (demo_request ''N1'' ''missing'')))"
proof -
  have m: "get_member demo_host Note_N1 ''missing'' = Inr Undefined"
    by (simp add: demo_get_member demo_member_def)
  have "dispatch demo_host (demo_request ''N1'' ''missing'') =
      (Log (executing_message (demo_request ''N1'' ''missing'')) # [Call_getNote (Some ''N1'')] @ []
         @ respond Undefined, Returned)"
    by (rule dispatch_result [where ob = Note_N1 and ret0 = Undefined])
       (simp_all add: demo_resolve demo_methodName m try_block_def)
  then have "handler demo_host (demo_request ''N1'' ''missing'') =
     ([Log ''Executing note(N1).missing([])'', Call_getNote (Some ''N1''),
       Log ''Return value undefined'', Respond \<lparr>status = 201, body = None\<rparr>], Returned)"
    by (simp add: handler_authenticated demo_authenticated executing_message_demo respond_def
        return_message_def JSON_stringify_root)
  with m show ?thesis by simp
qed

text \<open>
  C2, amended.  For a request that passed the token check and whose invocation gave
  \<^verbatim>\<open>null\<close>, the response is 400 without a body: the serialization goes to the log only.
  When the invocation gave \<^verbatim>\<open>undefined\<close>, as for a member that does not exist, the
  response is 201 without a body.
\<close>

theorem null_result_400_undefined_201:
  assumes "AuthGate h rq = Inr True"
    and "resolve h (objtype rq) (objid rq) = (evs, Some ob)"
    and "get_member h ob (ToString (methodName rq)) = Inr ret0"
    and "try_block h ob (ToString (methodName rq)) (args rq) ret0 = (ivs, Inr ret)"
  shows "(ret = Null \<longrightarrow> handler h rq =
            (Log (executing_message rq) # evs @ ivs
               @ [Log ''Return value null'', Respond \<lparr>status = 400, body = None\<rparr>], Returned))
       \<and> (ret = Undefined \<longrightarrow> handler h rq =
            (Log (executing_message rq) # evs @ ivs
               @ [Log ''Return value undefined'', Respond \<lparr>status = 201, body = None\<rparr>], Returned))"
  using assms
  by (simp add: handler_authenticated dispatch_result respond_def return_message_def
      JSON_stringify_root)

theorem null_result_400_undefined_201_witness:
  "handler demo_host (demo_request ''N1'' ''blobId'') =
     ([Log ''Executing note(N1).blobId([])'', Call_getNote (Some ''N1''),
       Log ''Return value null'', Respond \<lparr>status = 400, body = None\<rparr>], Returned)
   \<and> handler demo_host (demo_request ''N1'' ''save'') =
     ([Log ''Executing note(N1).save([])'', Call_getNote (Some ''N1''), Apply 10 Note_N1 [],
       Log ''Return value undefined'', Respond \<lparr>status = 201, body = None\<rparr>], Returned)"
proof -
  have a: "get_member demo_host Note_N1 (ToString (methodName (demo_request ''N1'' ''blobId''))) = Inr Null"
    by (simp add: demo_methodName demo_get_member demo_member_def)
  have b: "get_member demo_host Note_N1 (ToString (methodName (demo_request ''N1'' ''save'')))
             = Inr (Function 10)"
    by (simp add: demo_methodName demo_get_member demo_member_def)
  have ta: "try_block demo_host Note_N1 (ToString (methodName (demo_request ''N1'' ''blobId'')))
              (args (demo_request ''N1'' ''blobId'')) Null = ([], Inr Null)"
    using a by (simp add: try_block_def)
  have tb: "try_block demo_host Note_N1 (ToString (methodName (demo_request ''N1'' ''save'')))
              (args (demo_request ''N1'' ''save'')) (Function 10) = ([Apply 10 Note_N1 []], Inr Undefined)"
    using b by (simp add: try_block_def demo_args demo_apply_function demo_apply_def)
  have r: "resolve demo_host (objtype (demo_request ''N1'' name)) (objid (demo_request ''N1'' name))
             = ([Call_getNote (Some ''N1'')], Some Note_N1)" for name
    by (simp add: demo_resolve)
  show ?thesis
    using null_result_400_undefined_201 [OF demo_authenticated r a ta]
      null_result_400_undefined_201 [OF demo_authenticated r b tb]
    by (simp add: executing_message_demo)
qed

lemma resolve_events_fst:
  "set (fst (resolve h ty oid)) \<subseteq> {Call_getNote oid, Call_getBranch oid, Call_getAttribute oid, Read_sql}"
  by (simp add: resolve_def)

lemma resolve_events:
  assumes "resolve h ty oid = (evs, ob)"
  shows "set evs \<subseteq> {Call_getNote oid, Call_getBranch oid, Call_getAttribute oid, Read_sql}"
  using resolve_events_fst [of h ty oid] assms by simp

lemma try_block_failed:
  assumes "get_member h ob name = Inr ret0"
    and "try_block h ob name as ret0 = (ivs, Inl e)"
  shows "\<exists>f. ret0 = Function f \<and> ivs = [Apply f ob as] \<and> apply_function h f ob as = Inl e"
  using assms by (cases ret0) (auto simp: try_block_def)

lemma executing_not_return: "executing_message rq \<noteq> return_message v"
  by (simp add: executing_message_def return_message_def)

text \<open>
  C5.  For a request that passed the token check, on a handle that is an object: a
  member that is a function is applied once, with the handle as receiver and the
  request's \<^verbatim>\<open>args\<close> as they are, directly after the resolution, and what the call
  returns or throws decides the rest; a member that is not a function is itself the
  result and nothing is applied.
\<close>

theorem invoke_applies_or_reads:
  assumes "AuthGate h rq = Inr True"
    and "resolve h (objtype rq) (objid rq) = (evs, Some ob)"
    and "get_member h ob (ToString (methodName rq)) = Inr m"
  shows "(\<forall>f. m = Function f \<longrightarrow> handler h rq =
            (Log (executing_message rq) # evs @ Apply f ob (args rq) #
               (case apply_function h f ob (args rq) of
                  Inl e \<Rightarrow> [Log_failure e, Respond \<lparr>status = 500, body = Some (js_String e)\<rparr>]
                | Inr ret \<Rightarrow> respond ret), Returned))
       \<and> ((\<forall>f. m \<noteq> Function f) \<longrightarrow>
            handler h rq = (Log (executing_message rq) # evs @ respond m, Returned)
            \<and> (\<forall>f ob' as. Apply f ob' as \<notin> set (fst (handler h rq))))"
proof (intro conjI allI impI)
  fix f assume f: "m = Function f"
  then have t: "try_block h ob (ToString (methodName rq)) (args rq) m
      = ([Apply f ob (args rq)], apply_function h f ob (args rq))"
    using assms(3) by (simp add: try_block_callable)
  show "handler h rq =
      (Log (executing_message rq) # evs @ Apply f ob (args rq) #
         (case apply_function h f ob (args rq) of
            Inl e \<Rightarrow> [Log_failure e, Respond \<lparr>status = 500, body = Some (js_String e)\<rparr>]
          | Inr ret \<Rightarrow> respond ret), Returned)"
  proof (cases "apply_function h f ob (args rq)")
    case (Inl e)
    with t assms show ?thesis
      by (simp add: handler_authenticated dispatch_failed [where ivs = "[Apply f ob (args rq)]"])
  next
    case (Inr ret)
    with t assms show ?thesis
      by (simp add: handler_authenticated dispatch_result [where ivs = "[Apply f ob (args rq)]"])
  qed
next
  assume nf: "\<forall>f. m \<noteq> Function f"
  then have t: "try_block h ob (ToString (methodName rq)) (args rq) m = ([], Inr m)"
    using assms(3) by (simp add: try_block_not_callable)
  with assms show r: "handler h rq = (Log (executing_message rq) # evs @ respond m, Returned)"
    by (simp add: handler_authenticated dispatch_result [where ivs = "[]"])
  fix f ob' as
  show "Apply f ob' as \<notin> set (fst (handler h rq))"
    using r resolve_events [OF assms(2)] by (auto simp: respond_def)
qed

theorem invoke_applies_or_reads_witness:
  "handler demo_host (demo_request ''N1'' ''getTitle'') =
     ([Log ''Executing note(N1).getTitle([])'', Call_getNote (Some ''N1''), Apply 7 Note_N1 []]
        @ respond (Str ''Groceries''), Returned)
   \<and> handler demo_host (demo_request ''N1'' ''title'') =
     ([Log ''Executing note(N1).title([])'', Call_getNote (Some ''N1'')]
        @ respond (Str ''Groceries''), Returned)"
proof -
  have a: "get_member demo_host Note_N1 (ToString (methodName (demo_request ''N1'' ''getTitle'')))
             = Inr (Function 7)"
    by (simp add: demo_methodName demo_get_member demo_member_def)
  have b: "get_member demo_host Note_N1 (ToString (methodName (demo_request ''N1'' ''title'')))
             = Inr (Str ''Groceries'')"
    by (simp add: demo_methodName demo_get_member demo_member_def)
  have r: "resolve demo_host (objtype (demo_request ''N1'' name)) (objid (demo_request ''N1'' name))
             = ([Call_getNote (Some ''N1'')], Some Note_N1)" for name
    by (simp add: demo_resolve)
  show ?thesis
    using invoke_applies_or_reads [OF demo_authenticated r a]
      invoke_applies_or_reads [OF demo_authenticated r b]
    by (simp add: executing_message_demo demo_args demo_apply_function demo_apply_def)
qed

text \<open>
  A failure thrown inside the \<^verbatim>\<open>try\<close> block.  The member was read before the block, so
  it is a function and its application threw \<open>e\<close>; after it the handler logs \<open>e\<close> and
  then answers 500 with the body \<^verbatim>\<open>String(e)\<close>; the run has no return-value log entry
  and no serialized result.
\<close>

lemma call_failure_500:
  assumes "AuthGate h rq = Inr True"
    and "resolve h (objtype rq) (objid rq) = (evs, Some ob)"
    and "get_member h ob (ToString (methodName rq)) = Inr ret0"
    and "try_block h ob (ToString (methodName rq)) (args rq) ret0 = (ivs, Inl e)"
  shows "handler h rq =
           (Log (executing_message rq) # evs @ ivs
              @ [Log_failure e, Respond \<lparr>status = 500, body = Some (js_String e)\<rparr>], Returned)
       \<and> (\<exists>f. ret0 = Function f \<and> ivs = [Apply f ob (args rq)]
              \<and> apply_function h f ob (args rq) = Inl e)
       \<and> (\<forall>v. Log (return_message v) \<notin> set (fst (handler h rq)))"
proof -
  have r: "handler h rq =
           (Log (executing_message rq) # evs @ ivs
              @ [Log_failure e, Respond \<lparr>status = 500, body = Some (js_String e)\<rparr>], Returned)"
    using assms by (simp add: handler_authenticated dispatch_failed)
  have t: "\<exists>f. ret0 = Function f \<and> ivs = [Apply f ob (args rq)]
              \<and> apply_function h f ob (args rq) = Inl e"
    using assms(3,4) by (rule try_block_failed)
  have "Log (return_message v) \<notin> set (fst (handler h rq))" for v
    using r t resolve_events [OF assms(2)] executing_not_return [of rq v] by auto
  with r t show ?thesis by blast
qed

lemma demo_call_failure:
  assumes "demo_member Note_N1 name = Inr (Function f)"
    and "demo_apply f Note_N1 [] = Inl e"
  shows "handler demo_host (demo_request ''N1'' name) =
     ([Log (''Executing note(N1).'' @ name @ ''([])''), Call_getNote (Some ''N1''),
       Apply f Note_N1 [], Log_failure e,
       Respond \<lparr>status = 500, body = Some (js_String e)\<rparr>], Returned)"
proof -
  have a: "get_member demo_host Note_N1 (ToString (methodName (demo_request ''N1'' name)))
             = Inr (Function f)"
    using assms(1) by (simp add: demo_methodName demo_get_member)
  have t: "try_block demo_host Note_N1 (ToString (methodName (demo_request ''N1'' name)))
              (args (demo_request ''N1'' name)) (Function f)
            = ([Apply f Note_N1 []], Inl e)"
    using a assms(2) by (simp add: try_block_def demo_args demo_apply_function)
  have r: "resolve demo_host (objtype (demo_request ''N1'' name)) (objid (demo_request ''N1'' name))
             = ([Call_getNote (Some ''N1'')], Some Note_N1)"
    by (simp add: demo_resolve)
  show ?thesis
    using call_failure_500 [OF demo_authenticated r a t]
    by (simp add: executing_message_demo)
qed

text \<open>Two runs of it: a method that throws an \<^verbatim>\<open>Error\<close>, and a method whose body reads a
  property of \<^verbatim>\<open>null\<close>; the body of the response is the text that \<^verbatim>\<open>String(e)\<close> gives.\<close>

lemma call_failure_500_thrown:
  "handler demo_host (demo_request ''N1'' ''fail'') =
     ([Log ''Executing note(N1).fail([])'', Call_getNote (Some ''N1''), Apply 8 Note_N1 [],
       Log_failure (Thrown ''Error: boom''),
       Respond \<lparr>status = 500, body = Some ''Error: boom''\<rparr>], Returned)"
  using demo_call_failure [of "''fail''" 8 "Thrown ''Error: boom''"]
  by (simp add: demo_member_def demo_apply_def)

lemma call_failure_500_TypeError:
  "handler demo_host (demo_request ''N1'' ''getOwner'') =
     ([Log ''Executing note(N1).getOwner([])'', Call_getNote (Some ''N1''), Apply 12 Note_N1 [],
       Log_failure (TypeError_read_of_null ''name''),
       Respond \<lparr>status = 500,
         body = Some (''TypeError: Cannot read properties of null (reading ''
                      @ [CHR 0x27] @ ''name'' @ [CHR 0x27] @ '')'')\<rparr>], Returned)"
  using demo_call_failure [of "''getOwner''" 12 "TypeError_read_of_null ''name''"]
  by (simp add: demo_member_def demo_apply_def squote_def)

text \<open>
  C6.  A request with the right token for a branch that does not exist:
  \<^verbatim>\<open>api.getBranch\<close> gives no object, and the lookup of the member on it throws a
  TypeError.  The read \<^verbatim>\<open>var ret = obj[methodName];\<close> stands before the \<^verbatim>\<open>try\<close>, so the
  failure of the lookup does not reach the \<^verbatim>\<open>catch\<close>: the run ends with the TypeError
  uncaught, the failure is not logged and no response 500 with its string form is
  sent.
\<close>

theorem lookup_failure_gets_no_500:
  "handler demo_host ((demo_request ''B1'' ''getNote'')\<lparr>objtype := Some ''branch''\<rparr>) =
     ([Log ''Executing branch(B1).getNote([])'', Call_getBranch (Some ''B1'')],
      Uncaught (TypeError_read_of_null ''getNote''))
   \<and> Log_failure (TypeError_read_of_null ''getNote'')
       \<notin> set (fst (handler demo_host ((demo_request ''B1'' ''getNote'')\<lparr>objtype := Some ''branch''\<rparr>)))
   \<and> Respond \<lparr>status = 500, body = Some (js_String (TypeError_read_of_null ''getNote''))\<rparr>
       \<notin> set (fst (handler demo_host ((demo_request ''B1'' ''getNote'')\<lparr>objtype := Some ''branch''\<rparr>)))"
proof -
  let ?rq = "(demo_request ''B1'' ''getNote'')\<lparr>objtype := Some ''branch''\<rparr>"
  have a: "AuthGate demo_host ?rq = Inr True"
    by (simp add: AuthGate_def demo_host_def demo_request_def)
  have r: "resolve demo_host (objtype ?rq) (objid ?rq) = ([Call_getBranch (Some ''B1'')], None)"
    by (simp add: resolve_def demo_host_def demo_request_def)
  have m: "executing_message ?rq = ''Executing branch(B1).getNote([])''"
    by (simp add: executing_message_def demo_request_def JSON_stringify_root)
  have "handler demo_host ?rq =
     ([Log ''Executing branch(B1).getNote([])'', Call_getBranch (Some ''B1'')],
      Uncaught (TypeError_read_of_null ''getNote''))"
    using dispatch_null_handle [OF r] by (simp add: handler_authenticated [OF a] m demo_methodName)
  then show ?thesis
    by simp
qed

section \<open>Serialization\<close>

lemma of_char_digit_char: "d < 10 \<Longrightarrow> (of_char (digit_char d) :: nat) = 48 + d"
  by (simp add: digit_char_def)

lemma last_show_nat: "last (show_nat n) = digit_char (n mod 10)"
  by (subst show_nat.simps) simp

lemma show_nat_not_filtered: "show_nat i \<noteq> ''children'' \<and> show_nat i \<noteq> ''parents''"
proof -
  have "(of_char (last (show_nat i)) :: nat) = 48 + i mod 10"
    by (simp add: last_show_nat of_char_digit_char)
  then have "(of_char (last (show_nat i)) :: nat) < 58"
    by simp
  then show ?thesis
    by auto
qed

lemma replacer_index: "replacer (show_nat i) v = v"
  using show_nat_not_filtered [of i] by (simp add: replacer_def)

lemma Serialize_omit_filtered:
  "SerializeJSONValue Replacer v = SerializeJSONValue No_replacer (omit_filtered v)"
  "\<forall>i. SerializeJSONArray Replacer i xs
        = SerializeJSONArray No_replacer i (omit_filtered_elements xs)"
  "SerializeJSONObject Replacer kvs = SerializeJSONObject No_replacer (omit_filtered_members kvs)"
  by (induction v and xs and kvs
      rule: omit_filtered_omit_filtered_elements_omit_filtered_members.induct)
     (simp_all add: replacer_index, auto simp: replacer_def split: option.splits)

lemma JSON_stringify_omit_filtered:
  "JSON_stringify v Replacer = JSON_stringify (omit_filtered v) No_replacer"
  by (simp add: JSON_stringify_root Serialize_omit_filtered)


lemma omit_filtered_id:
  "\<not> has_filtered_key v \<Longrightarrow> omit_filtered v = v"
  "\<not> has_filtered_key_elements xs \<Longrightarrow> omit_filtered_elements xs = xs"
  "\<not> has_filtered_key_members kvs \<Longrightarrow> omit_filtered_members kvs = kvs"
  by (induction v and xs and kvs
      rule: omit_filtered_omit_filtered_elements_omit_filtered_members.induct) simp_all




section \<open>Decoding what was serialized\<close>

subsection \<open>Numbers\<close>

lemma is_digit_digit_char: "d < 10 \<Longrightarrow> is_digit (digit_char d)"
  by (simp add: is_digit_def digit_char_def)

lemma digit_val_digit_char: "d < 10 \<Longrightarrow> digit_val (digit_char d) = d"
  by (simp add: digit_val_def digit_char_def)

lemma show_nat_not_Nil: "show_nat n \<noteq> []"
  by (subst show_nat.simps) simp

lemma show_nat_digits: "c \<in> set (show_nat n) \<Longrightarrow> is_digit c"
proof (induction n arbitrary: c rule: show_nat.induct)
  case (1 n)
  show ?case
  proof (cases "n < 10")
    case True
    with "1.prems" show ?thesis
      by (subst (asm) show_nat.simps) (simp add: is_digit_digit_char)
  next
    case False
    with "1.prems" have "c \<in> set (show_nat (n div 10)) \<or> c = digit_char (n mod 10)"
      by (subst (asm) show_nat.simps) auto
    with False "1.IH" show ?thesis
      by (auto simp: is_digit_digit_char)
  qed
qed

lemma show_nat_value: "foldl (\<lambda>a d. 10 * a + digit_val d) 0 (show_nat n) = n"
proof (induction n rule: show_nat.induct)
  case (1 n)
  show ?case
  proof (cases "n < 10")
    case True
    then show ?thesis
      by (subst show_nat.simps) (simp add: digit_val_digit_char)
  next
    case False
    with "1.IH" show ?thesis
      by (subst show_nat.simps) (simp add: digit_val_digit_char)
  qed
qed

lemma show_nat_single: "n < 10 \<Longrightarrow> show_nat n = [digit_char n]"
  by (subst show_nat.simps) simp

lemma show_nat_no_leading_zero: "0 < n \<Longrightarrow> hd (show_nat n) \<noteq> CHR ''0''"
proof (induction n rule: show_nat.induct)
  case (1 n)
  show ?case
  proof (cases "n < 10")
    case True
    then have "(of_char (digit_char n) :: nat) = 48 + n"
      by (simp add: of_char_digit_char)
    with "1.prems" have "digit_char n \<noteq> CHR ''0''"
      by auto
    with True show ?thesis
      by (simp add: show_nat_single)
  next
    case False
    then have "0 < n div 10"
      by simp
    with False "1.IH" have "hd (show_nat (n div 10)) \<noteq> CHR ''0''"
      by simp
    with False show ?thesis
      by (subst show_nat.simps) (simp add: show_nat_not_Nil)
  qed
qed

lemma takeWhile_no_digit_ahead: "no_digit_ahead rest \<Longrightarrow> takeWhile is_digit rest = []"
  by (cases rest) (simp_all add: no_digit_ahead_def)

lemma dropWhile_no_digit_ahead: "no_digit_ahead rest \<Longrightarrow> dropWhile is_digit rest = rest"
  by (cases rest) (simp_all add: no_digit_ahead_def)

lemma parse_nat_show_nat:
  assumes "no_digit_ahead rest"
  shows "parse_nat (show_nat n @ rest) = Some (n, rest)"
proof -
  have t: "takeWhile is_digit (show_nat n @ rest) = show_nat n"
    using assms by (simp add: show_nat_digits takeWhile_no_digit_ahead)
  have d: "dropWhile is_digit (show_nat n @ rest) = rest"
    using assms by (simp add: show_nat_digits dropWhile_no_digit_ahead)
  have z: "\<not> (1 < length (show_nat n) \<and> hd (show_nat n) = CHR ''0'')"
  proof (cases "n < 10")
    case True
    then show ?thesis by (simp add: show_nat_single)
  next
    case False
    then show ?thesis by (simp add: show_nat_no_leading_zero)
  qed
  show ?thesis
    using z by (simp add: parse_nat_def Let_def t d show_nat_not_Nil show_nat_value)
qed

subsection \<open>Strings\<close>

lemma hex_val_hex_char: "d < 16 \<Longrightarrow> hex_val (hex_char d) = Some d"
  by (auto simp: hex_val_def hex_char_def Let_def)

lemma unicode_escape_control:
  "n < 32 \<Longrightarrow>
   unicode_escape (CHR ''0'') (CHR ''0'') (hex_char (n div 16)) (hex_char (n mod 16))
     = Some (char_of n)"
proof -
  assume n: "n < 32"
  then have "n div 16 < 16" by simp
  then show ?thesis
    by (simp add: unicode_escape_def hex_val_hex_char) (simp add: hex_val_def)
qed

lemma parse_chars_quote_char:
  "parse_chars (quote_char c @ rest) = cons_result c (parse_chars rest)"
proof -
  have u: "unicode_escape (CHR ''0'') (CHR ''0'') (hex_char (of_char c div 16))
             (hex_char (of_char c mod 16)) = Some c"
    if "(of_char c :: nat) < 32"
    using unicode_escape_control [OF that] by simp
  show ?thesis
    by (simp add: quote_char_def unescape_def dquote_def backslash_def u)
qed

lemma parse_chars_quoted:
  "parse_chars (concat (map quote_char s) @ dquote # rest) = Some (s, rest)"
  by (induction s) (simp_all add: parse_chars_quote_char cons_result_def)


subsection \<open>Values\<close>

lemma is_digit_not_structural:
  "is_digit c \<Longrightarrow>
   c \<noteq> CHR ''n'' \<and> c \<noteq> CHR ''t'' \<and> c \<noteq> CHR ''f'' \<and> c \<noteq> dquote \<and> c \<noteq> CHR ''[''
   \<and> c \<noteq> CHR ''{'' \<and> c \<noteq> CHR ''-'' \<and> c \<noteq> CHR '']''"
  by (auto simp: is_digit_def dquote_def)

lemma show_nat_Cons: "\<exists>c cs. show_nat n = c # cs \<and> is_digit c"
  using show_nat_not_Nil [of n] show_nat_digits [of _ n] by (cases "show_nat n") auto

lemma parse_value_number:
  assumes "no_digit_ahead rest"
  shows "parse_value (Suc n) (show_int i @ rest) = Some (Num i, rest)"
proof (cases "i < 0")
  case True
  then show ?thesis
    using parse_nat_show_nat [OF assms, of "nat (- i)"]
    by (simp add: show_int_def dquote_def)
next
  case False
  obtain c cs where c: "show_nat (nat i) = c # cs" "is_digit c"
    using show_nat_Cons by blast
  have "parse_nat (c # cs @ rest) = Some (nat i, rest)"
    using parse_nat_show_nat [OF assms, of "nat i"] c by simp
  with False c show ?thesis
    using is_digit_not_structural [OF c(2)] by (simp add: show_int_def)
qed

lemma parse_value_string:
  "parse_value (Suc n) (QuoteJSONString s @ rest) = Some (Str s, rest)"
  by (simp add: QuoteJSONString_def parse_chars_quoted) (simp add: dquote_def)

lemma parse_value_literals:
  "parse_value (Suc n) (''null'' @ rest) = Some (Null, rest)"
  "parse_value (Suc n) (''true'' @ rest) = Some (Bool True, rest)"
  "parse_value (Suc n) (''false'' @ rest) = Some (Bool False, rest)"
  by (simp_all add: parse_literal_def)

lemma show_int_start: "\<not> starts_with (CHR '']'') (show_int i @ rest)"
proof -
  obtain c cs where c: "show_nat (nat i) = c # cs" "is_digit c"
    using show_nat_Cons by blast
  then show ?thesis
    using is_digit_not_structural [OF c(2)] by (simp add: show_int_def)
qed

lemma value_text_start:
  assumes "SerializeJSONValue No_replacer v = Some s"
  shows "\<not> starts_with (CHR '']'') (s @ rest)"
  using assms by (cases v) (auto simp: show_int_start QuoteJSONString_def dquote_def split: if_splits)

lemma json_safe_serializes:
  "json_safe v \<Longrightarrow> \<exists>s. SerializeJSONValue No_replacer v = Some s"
  by (cases v) simp_all

lemma join_comma_Cons:
  "join_comma (t # ts) = t @ (if ts = [] then [] else '','' @ join_comma ts)"
  by (cases ts) simp_all

lemma SerializeJSONArray_Nil_iff: "SerializeJSONArray r i xs = [] \<longleftrightarrow> xs = []"
  by (cases xs) simp_all

lemma SerializeJSONObject_safe_Nil_iff:
  assumes "json_safe_members kvs"
  shows "SerializeJSONObject No_replacer kvs = [] \<longleftrightarrow> kvs = []"
proof (cases kvs)
  case Nil
  then show ?thesis by simp
next
  case (Cons kv lws)
  obtain k v where kv: "kv = (k, v)"
    by (cases kv)
  with Cons assms obtain t where "SerializeJSONValue No_replacer v = Some t"
    using json_safe_serializes [of v] by auto
  with Cons kv show ?thesis by simp
qed

lemma no_digit_ahead_separators:
  "no_digit_ahead (CHR '','' # rest)"
  "no_digit_ahead (CHR '']'' # rest)"
  "no_digit_ahead (CHR ''}'' # rest)"
  "no_digit_ahead []"
  by (simp_all add: no_digit_ahead_def is_digit_def)

lemma parse_elements_last:
  "parse_value n (t @ CHR '']'' # rest) = Some (x, CHR '']'' # rest) \<Longrightarrow>
   parse_elements (Suc n) (t @ CHR '']'' # rest) = Some ([x], rest)"
  by simp

lemma parse_elements_more:
  "parse_value n (t @ CHR '','' # tail) = Some (x, CHR '','' # tail) \<Longrightarrow>
   parse_elements (Suc n) (t @ CHR '','' # tail) = cons_result x (parse_elements n tail)"
  by simp

lemma parse_members_key:
  "parse_members (Suc n) (QuoteJSONString k @ CHR '':'' # tail) =
     (case parse_value n tail of
        None \<Rightarrow> None
      | Some (v, rest) \<Rightarrow>
          (if starts_with (CHR '','') rest then cons_result (k, v) (parse_members n (tl rest))
           else if starts_with (CHR ''}'') rest then Some ([(k, v)], tl rest)
           else None))"
  by (simp add: QuoteJSONString_def parse_chars_quoted)

lemma parse_value_empty:
  "parse_value (Suc n) (''[]'' @ rest) = Some (Arr [], rest)"
  "parse_value (Suc n) (''{}'' @ rest) = Some (Obj [], rest)"
  by (simp_all add: dquote_def)

lemma parse_value_array:
  "\<not> starts_with (CHR '']'') text \<Longrightarrow>
   parse_value (Suc n) (CHR ''['' # text) =
     (case parse_elements n text of None \<Rightarrow> None | Some (xs, rest) \<Rightarrow> Some (Arr xs, rest))"
  by (simp add: dquote_def)

lemma parse_value_object:
  "\<not> starts_with (CHR ''}'') text \<Longrightarrow>
   parse_value (Suc n) (CHR ''{'' # text) =
     (case parse_members n text of None \<Rightarrow> None | Some (kvs, rest) \<Rightarrow> Some (Obj kvs, rest))"
  by (simp add: dquote_def)

declare parse_value.simps [simp del] parse_elements.simps [simp del] parse_members.simps [simp del]

lemma parse_roundtrip:
  "json_safe v \<longrightarrow> (\<forall>n rest s. size v < n \<longrightarrow> no_digit_ahead rest \<longrightarrow>
      SerializeJSONValue No_replacer v = Some s \<longrightarrow> parse_value n (s @ rest) = Some (v, rest))"
  "json_safe_elements xs \<longrightarrow> xs \<noteq> [] \<longrightarrow> (\<forall>n rest i. size_list size xs < n \<longrightarrow>
      parse_elements n (join_comma (SerializeJSONArray No_replacer i xs) @ '']'' @ rest)
        = Some (xs, rest))"
  "json_safe_members kvs \<longrightarrow> kvs \<noteq> [] \<longrightarrow>
     (\<forall>n rest. size_list (size_prod (\<lambda>_. 0) size) kvs < n \<longrightarrow>
      parse_members n (join_comma (SerializeJSONObject No_replacer kvs) @ ''}'' @ rest)
        = Some (kvs, rest))"
proof (induction v and xs and kvs rule: json_safe_json_safe_elements_json_safe_members.induct)
  case (1 xs)
  show ?case
  proof (intro impI allI)
    fix n rest s
    assume safe: "json_safe (Arr xs)" and n: "size (Arr xs) < n"
      and s: "SerializeJSONValue No_replacer (Arr xs) = Some s"
    from n obtain m where m: "n = Suc m" "size_list size xs < m"
      by (cases n) auto
    show "parse_value n (s @ rest) = Some (Arr xs, rest)"
    proof (cases xs)
      case Nil
      with s m show ?thesis
        using parse_value_empty(1) [of m rest] by auto
    next
      case (Cons x ys)
      with safe obtain t where t: "SerializeJSONValue No_replacer x = Some t"
        using json_safe_serializes [of x] by auto
      have "\<not> starts_with (CHR '']'')
          (join_comma (SerializeJSONArray No_replacer 0 xs) @ '']'' @ rest)"
        using value_text_start [OF t] Cons t by (simp add: join_comma_Cons)
      moreover have "parse_elements m
          (join_comma (SerializeJSONArray No_replacer 0 xs) @ '']'' @ rest) = Some (xs, rest)"
        using 1 safe m Cons by simp
      ultimately show ?thesis
        using s m by (auto simp: parse_value_array)
    qed
  qed
next
  case (2 kvs)
  show ?case
  proof (intro impI allI)
    fix n rest s
    assume safe: "json_safe (Obj kvs)" and n: "size (Obj kvs) < n"
      and s: "SerializeJSONValue No_replacer (Obj kvs) = Some s"
    from n obtain m where m: "n = Suc m" "size_list (size_prod (\<lambda>_. 0) size) kvs < m"
      by (cases n) auto
    show "parse_value n (s @ rest) = Some (Obj kvs, rest)"
    proof (cases kvs)
      case Nil
      with s m show ?thesis
        using parse_value_empty(2) [of m rest] by auto
    next
      case (Cons kv lws)
      obtain k v where kv: "kv = (k, v)"
        by (cases kv)
      with Cons safe obtain t where t: "SerializeJSONValue No_replacer v = Some t"
        using json_safe_serializes [of v] by auto
      have "\<not> starts_with (CHR ''}'')
          (join_comma (SerializeJSONObject No_replacer kvs) @ ''}'' @ rest)"
        using Cons kv t by (simp add: join_comma_Cons QuoteJSONString_def dquote_def)
      moreover have "parse_members m
          (join_comma (SerializeJSONObject No_replacer kvs) @ ''}'' @ rest) = Some (kvs, rest)"
        using 2 safe m Cons by simp
      ultimately show ?thesis
        using s m by (auto simp: parse_value_object)
    qed
  qed
next
  case 3
  show ?case by simp
next
  case 4
  show ?case
  proof (intro impI allI)
    fix n :: nat and rest s
    assume "size Null < n" and s: "SerializeJSONValue No_replacer Null = Some s"
    then obtain m where "n = Suc m" by (cases n) auto
    with s show "parse_value n (s @ rest) = Some (Null, rest)"
      using parse_value_literals(1) [of m rest] by auto
  qed
next
  case (5 b)
  show ?case
  proof (intro impI allI)
    fix n :: nat and rest s
    assume "size (Bool b) < n" and s: "SerializeJSONValue No_replacer (Bool b) = Some s"
    then obtain m where "n = Suc m" by (cases n) auto
    with s show "parse_value n (s @ rest) = Some (Bool b, rest)"
      using parse_value_literals(2,3) [of m rest] by (cases b) auto
  qed
next
  case (6 i)
  show ?case
  proof (intro impI allI)
    fix n :: nat and rest s
    assume "size (Num i) < n" and s: "SerializeJSONValue No_replacer (Num i) = Some s"
      and r: "no_digit_ahead rest"
    then obtain m where "n = Suc m" by (cases n) auto
    with s show "parse_value n (s @ rest) = Some (Num i, rest)"
      using parse_value_number [OF r, of m i] by auto
  qed
next
  case (7 str)
  show ?case
  proof (intro impI allI)
    fix n :: nat and rest s
    assume "size (Str str) < n" and s: "SerializeJSONValue No_replacer (Str str) = Some s"
    then obtain m where "n = Suc m" by (cases n) auto
    with s show "parse_value n (s @ rest) = Some (Str str, rest)"
      using parse_value_string [of m str rest] by auto
  qed
next
  case (8 f)
  show ?case by simp
next
  case 9
  show ?case by simp
next
  case (10 x xs)
  show ?case
  proof (intro impI allI)
    fix n rest i
    assume safe: "json_safe_elements (x # xs)" and n: "size_list size (x # xs) < n"
    from n obtain m where m: "n = Suc m" "size x < m" "size_list size xs < m"
      by (cases n) auto
    from safe obtain t where t: "SerializeJSONValue No_replacer x = Some t"
      using json_safe_serializes [of x] by auto
    have v: "parse_value m (t @ r) = Some (x, r)" if "no_digit_ahead r" for r
      using "10.IH"(1) safe m t that by simp
    show "parse_elements n (join_comma (SerializeJSONArray No_replacer i (x # xs)) @ '']'' @ rest)
        = Some (x # xs, rest)"
    proof (cases "xs = []")
      case True
      with t m show ?thesis
        using parse_elements_last [OF v [OF no_digit_ahead_separators(2)], of rest]
        by simp
    next
      case False
      have "parse_elements m
          (join_comma (SerializeJSONArray No_replacer (Suc i) xs) @ '']'' @ rest) = Some (xs, rest)"
        using "10.IH"(2) safe m False by simp
      with False t m show ?thesis
        using parse_elements_more [OF v [OF no_digit_ahead_separators(1)],
            of "join_comma (SerializeJSONArray No_replacer (Suc i) xs) @ '']'' @ rest"]
        by (simp add: join_comma_Cons SerializeJSONArray_Nil_iff cons_result_def)
    qed
  qed
next
  case 11
  show ?case by simp
next
  case (12 k v kvs)
  show ?case
  proof (intro impI allI)
    fix n rest
    assume safe: "json_safe_members ((k, v) # kvs)"
      and n: "size_list (size_prod (\<lambda>_. 0) size) ((k, v) # kvs) < n"
    from n obtain m where m: "n = Suc m" "size v < m"
        "size_list (size_prod (\<lambda>_. 0) size) kvs < m"
      by (cases n) auto
    from safe obtain t where t: "SerializeJSONValue No_replacer v = Some t"
      using json_safe_serializes [of v] by auto
    have pv: "parse_value m (t @ r) = Some (v, r)" if "no_digit_ahead r" for r
      using "12.IH"(1) safe m t that by simp
    show "parse_members n (join_comma (SerializeJSONObject No_replacer ((k, v) # kvs)) @ ''}'' @ rest)
        = Some ((k, v) # kvs, rest)"
    proof (cases "kvs = []")
      case True
      have "parse_members (Suc m) (QuoteJSONString k @ CHR '':'' # t @ CHR ''}'' # rest)
          = Some ([(k, v)], rest)"
        by (simp add: parse_members_key pv [OF no_digit_ahead_separators(3)])
      with True t m show ?thesis
        by simp
    next
      case False
      let ?after = "join_comma (SerializeJSONObject No_replacer kvs) @ ''}'' @ rest"
      have "parse_members m ?after = Some (kvs, rest)"
        using "12.IH"(2) safe m False by simp
      then have "parse_members (Suc m) (QuoteJSONString k @ CHR '':'' # t @ CHR '','' # ?after)
          = Some ((k, v) # kvs, rest)"
        by (simp add: parse_members_key pv [OF no_digit_ahead_separators(1)] cons_result_def)
      with False t m safe show ?thesis
        by (simp add: join_comma_Cons SerializeJSONObject_safe_Nil_iff)
    qed
  qed
qed


lemma length_join_comma_Cons:
  "length t + length (join_comma ts) \<le> length (join_comma (t # ts))"
  by (cases ts) simp_all

lemma text_length:
  "json_safe v \<longrightarrow> (\<forall>s. SerializeJSONValue No_replacer v = Some s \<longrightarrow> size v < length s)"
  "json_safe_elements xs \<longrightarrow>
     (\<forall>i. size_list size xs \<le> length (join_comma (SerializeJSONArray No_replacer i xs)))"
  "json_safe_members kvs \<longrightarrow>
     size_list (size_prod (\<lambda>_. 0) size) kvs
       \<le> length (join_comma (SerializeJSONObject No_replacer kvs))"
proof (induction v and xs and kvs rule: json_safe_json_safe_elements_json_safe_members.induct)
  case (1 xs)
  show ?case
  proof (intro impI allI)
    fix s
    assume "json_safe (Arr xs)" and s: "SerializeJSONValue No_replacer (Arr xs) = Some s"
    with 1 have "size_list size xs \<le> length (join_comma (SerializeJSONArray No_replacer 0 xs))"
      by simp
    with s show "size (Arr xs) < length s"
      by auto
  qed
next
  case (2 kvs)
  then show ?case by auto
next
  case (6 i)
  show ?case
    using show_nat_not_Nil by (auto simp: show_int_def)
next
  case (7 str)
  show ?case by (simp add: QuoteJSONString_def)
next
  case (10 x xs)
  show ?case
  proof (intro impI allI)
    fix i
    assume safe: "json_safe_elements (x # xs)"
    then obtain t where t: "SerializeJSONValue No_replacer x = Some t"
      using json_safe_serializes [of x] by auto
    have "size x < length t"
      using "10.IH"(1) safe t by simp
    moreover have "size_list size xs
        \<le> length (join_comma (SerializeJSONArray No_replacer (Suc i) xs))"
      using "10.IH"(2) safe by simp
    ultimately show "size_list size (x # xs)
        \<le> length (join_comma (SerializeJSONArray No_replacer i (x # xs)))"
      using length_join_comma_Cons [of t "SerializeJSONArray No_replacer (Suc i) xs"] t
      by simp
  qed
next
  case (12 k v kvs)
  show ?case
  proof
    assume safe: "json_safe_members ((k, v) # kvs)"
    then obtain t where t: "SerializeJSONValue No_replacer v = Some t"
      using json_safe_serializes [of v] by auto
    have "size v < length t"
      using "12.IH"(1) safe t by simp
    moreover have "size_list (size_prod (\<lambda>_. 0) size) kvs
        \<le> length (join_comma (SerializeJSONObject No_replacer kvs))"
      using "12.IH"(2) safe by simp
    ultimately show "size_list (size_prod (\<lambda>_. 0) size) ((k, v) # kvs)
        \<le> length (join_comma (SerializeJSONObject No_replacer ((k, v) # kvs)))"
      using length_join_comma_Cons [of "QuoteJSONString k @ '':'' @ t"
          "SerializeJSONObject No_replacer kvs"] t
      by (simp add: QuoteJSONString_def)
  qed
qed simp_all

lemma JSON_parse_stringify:
  assumes "json_safe v"
  shows "\<exists>s. JSON_stringify v No_replacer = Some s \<and> JSON_parse s = Some v"
proof -
  obtain s where s: "SerializeJSONValue No_replacer v = Some s"
    using json_safe_serializes [OF assms] by blast
  have "size v < Suc (length s)"
    using text_length(1) assms s by (simp add: less_Suc_eq)
  then have "parse_value (Suc (length s)) (s @ []) = Some (v, [])"
    using parse_roundtrip(1) assms s no_digit_ahead_separators(4) by blast
  then have "JSON_parse s = Some v"
    by (simp add: JSON_parse_def)
  with s show ?thesis
    by (simp add: JSON_stringify_root)
qed

section \<open>The response to a result\<close>





text \<open>
  C8.  Round trip.  For a request that passed the token check and whose invocation
  gave a JSON-safe result \<open>v\<close> other than \<^verbatim>\<open>null\<close>, with no property named
  \<^verbatim>\<open>children\<close> or \<^verbatim>\<open>parents\<close> anywhere in it, the response is 201 with a body, and
  decoding the body as JSON gives \<open>v\<close>.
\<close>

theorem body_decodes_to_result:
  assumes "AuthGate h rq = Inr True"
    and "resolve h (objtype rq) (objid rq) = (evs, Some ob)"
    and "get_member h ob (ToString (methodName rq)) = Inr ret0"
    and "try_block h ob (ToString (methodName rq)) (args rq) ret0 = (ivs, Inr v)"
    and "json_safe v"
    and "\<not> has_filtered_key v"
    and "v \<noteq> Null"
  shows "\<exists>text. handler h rq =
           (Log (executing_message rq) # evs @ ivs
              @ [Log (return_message v), Respond \<lparr>status = 201, body = Some text\<rparr>], Returned)
         \<and> JSON_parse text = Some v"
proof -
  obtain s where s: "JSON_stringify v No_replacer = Some s" "JSON_parse s = Some v"
    using JSON_parse_stringify [OF assms(5)] by blast
  have "JSON_stringify v Replacer = Some s"
    using s(1) assms(6) by (simp add: JSON_stringify_omit_filtered omit_filtered_id)
  then have "handler h rq =
      (Log (executing_message rq) # evs @ ivs
         @ [Log (return_message v), Respond \<lparr>status = 201, body = Some s\<rparr>], Returned)"
    using assms(1-4,7) by (simp add: handler_authenticated dispatch_result respond_def)
  with s(2) show ?thesis by blast
qed

theorem body_decodes_to_result_witness:
  "\<exists>text. handler demo_host (demo_request ''N1'' ''getMeta'') =
     ([Log ''Executing note(N1).getMeta([])'', Call_getNote (Some ''N1''), Apply 11 Note_N1 [],
       Log (return_message (Obj [(''noteId'', Str ''N1''), (''position'', Num (- 20)),
                                 (''flags'', Arr [Bool True, Null])])),
       Respond \<lparr>status = 201, body = Some text\<rparr>], Returned)
   \<and> JSON_parse text
       = Some (Obj [(''noteId'', Str ''N1''), (''position'', Num (- 20)),
                    (''flags'', Arr [Bool True, Null])])"
proof -
  let ?v = "Obj [(''noteId'', Str ''N1''), (''position'', Num (- 20)),
                 (''flags'', Arr [Bool True, Null])]"
  have a: "get_member demo_host Note_N1 (ToString (methodName (demo_request ''N1'' ''getMeta'')))
             = Inr (Function 11)"
    by (simp add: demo_methodName demo_get_member demo_member_def)
  have t: "try_block demo_host Note_N1 (ToString (methodName (demo_request ''N1'' ''getMeta'')))
              (args (demo_request ''N1'' ''getMeta'')) (Function 11)
            = ([Apply 11 Note_N1 []], Inr ?v)"
    using a by (simp add: try_block_def demo_args demo_apply_function demo_apply_def)
  have r: "resolve demo_host (objtype (demo_request ''N1'' ''getMeta''))
             (objid (demo_request ''N1'' ''getMeta''))
             = ([Call_getNote (Some ''N1'')], Some Note_N1)"
    by (simp add: demo_resolve)
  have s: "json_safe ?v"
    by simp
  have k: "\<not> has_filtered_key ?v"
    by simp
  have n: "?v \<noteq> Null"
    by simp
  show ?thesis
    using body_decodes_to_result [OF demo_authenticated r a t s k n]
    by (simp add: executing_message_demo)
qed

lemma JSON_parse_example:
  "JSON_parse (''{'' @ QuoteJSONString ''position'' @ '':-20,'' @ QuoteJSONString ''flags''
      @ '':[true,null]}'')
     = Some (Obj [(''position'', Num (- 20)), (''flags'', Arr [Bool True, Null])])"
  by code_simp

end
